theory Spec2Isabelle
  imports Main
begin

section \<open>Python values and the exceptions the dataset adapter can raise\<close>

text \<open>
  The module \<^verbatim>\<open>multimodal_bert/datasets/foil_dataset.py\<close> is dynamically typed, and
  what it does depends on that: a dictionary key is subscripted as if it were a record,
  a list is subscripted with a string. The values the code handles are therefore
  modelled in one universe, with the operations raising the exception Python raises.
  JSON numbers are integers here (image ids are). Of the floating point numbers only the
  three that are not finite are values of the model, since the JSON decoder of Python
  reads the literals \<^verbatim>\<open>NaN\<close>, \<^verbatim>\<open>Infinity\<close> and \<^verbatim>\<open>-Infinity\<close>, which are not JSON; finite
  fractions are left out.
\<close>

datatype py_error =
  OSError | UnicodeDecodeError | JSONDecodeError | KeyError | TypeError | IndexError
| AttributeError | ValueError | OverflowError

datatype special_float = NaN | Infinity | NegInfinity

text \<open>
  A statement that may raise is a value of \<open>py_error + 'a\<close>; \<open>raising m f\<close> runs \<open>f\<close> on the
  result of \<open>m\<close>, or passes on the exception \<open>m\<close> raised.
\<close>

definition raising :: "py_error + 'a \<Rightarrow> ('a \<Rightarrow> py_error + 'b) \<Rightarrow> py_error + 'b" where
  "raising m f = (case m of Inl e \<Rightarrow> Inl e | Inr x \<Rightarrow> f x)"

datatype pyval =
  PNone
| PBool bool
| PInt int
| PFloat special_float
| PStr string
| PList "pyval list"
| PDict "(pyval \<times> pyval) list"

text \<open>Lists and dictionaries are unhashable: they cannot be dictionary keys.\<close>

fun hashable :: "pyval \<Rightarrow> bool" where
  "hashable (PList _) = False"
| "hashable (PDict _) = False"
| "hashable _ = True"

text \<open>\<^verbatim>\<open>True == 1\<close> and \<^verbatim>\<open>False == 0\<close>, with equal hashes: as keys they coincide.\<close>

fun key_norm :: "pyval \<Rightarrow> pyval" where
  "key_norm (PBool b) = PInt (if b then 1 else 0)"
| "key_norm v = v"

text \<open>
  A dictionary is an association list in insertion order, which is the order Python
  iterates it in. The first pair with an equal key is the entry.
\<close>

fun dict_find :: "(pyval \<times> pyval) list \<Rightarrow> pyval \<Rightarrow> pyval option" where
  "dict_find [] k = None"
| "dict_find ((k', v) # d) k = (if key_norm k' = key_norm k then Some v else dict_find d k)"

text \<open>\<^verbatim>\<open>k in d\<close>\<close>

definition dict_contains :: "(pyval \<times> pyval) list \<Rightarrow> pyval \<Rightarrow> py_error + bool" where
  "dict_contains d k = (if hashable k then Inr (dict_find d k \<noteq> None) else Inl TypeError)"

text \<open>\<^verbatim>\<open>d[k]\<close>\<close>

definition dict_getitem :: "(pyval \<times> pyval) list \<Rightarrow> pyval \<Rightarrow> py_error + pyval" where
  "dict_getitem d k =
     (if hashable k
      then (case dict_find d k of None \<Rightarrow> Inl KeyError | Some v \<Rightarrow> Inr v)
      else Inl TypeError)"

text \<open>\<^verbatim>\<open>d[k] = v\<close>: an existing key keeps its place, a new key goes last.\<close>

fun dict_store :: "(pyval \<times> pyval) list \<Rightarrow> pyval \<Rightarrow> pyval \<Rightarrow> (pyval \<times> pyval) list" where
  "dict_store [] k v = [(k, v)]"
| "dict_store ((k', v') # d) k v =
     (if key_norm k' = key_norm k then (k', v) # d else (k', v') # dict_store d k v)"

definition dict_setitem ::
  "(pyval \<times> pyval) list \<Rightarrow> pyval \<Rightarrow> pyval \<Rightarrow> py_error + (pyval \<times> pyval) list" where
  "dict_setitem d k v = (if hashable k then Inr (dict_store d k v) else Inl TypeError)"

text \<open>\<^verbatim>\<open>xs[i]\<close> on a sequence: a negative index counts from the end.\<close>

definition list_index :: "'a list \<Rightarrow> int \<Rightarrow> py_error + 'a" where
  "list_index xs i =
     (if 0 \<le> i \<and> i < int (length xs) then Inr (xs ! nat i)
      else if - int (length xs) \<le> i \<and> i < 0 then Inr (xs ! nat (int (length xs) + i))
      else Inl IndexError)"

text \<open>
  \<^verbatim>\<open>obj[key]\<close>. Integers, booleans and \<^verbatim>\<open>None\<close> are not subscriptable; a list or a
  string takes integer indices only (slices do not occur in the places modelled by this
  function).
\<close>

fun subscript :: "pyval \<Rightarrow> pyval \<Rightarrow> py_error + pyval" where
  "subscript (PDict d) k = dict_getitem d k"
| "subscript (PList xs) (PInt i) = list_index xs i"
| "subscript (PList xs) (PBool b) = list_index xs (if b then 1 else 0)"
| "subscript (PList xs) _ = Inl TypeError"
| "subscript (PStr s) (PInt i) = map_sum id (\<lambda>c. PStr [c]) (list_index s i)"
| "subscript (PStr s) (PBool b) = map_sum id (\<lambda>c. PStr [c]) (list_index s (if b then 1 else 0))"
| "subscript (PStr s) _ = Inl TypeError"
| "subscript _ _ = Inl TypeError"

text \<open>\<^verbatim>\<open>for x in obj\<close>: the elements of a list, the keys of a dictionary, the characters
  of a string.\<close>

fun py_iter :: "pyval \<Rightarrow> py_error + pyval list" where
  "py_iter (PList xs) = Inr xs"
| "py_iter (PDict d) = Inr (map fst d)"
| "py_iter (PStr s) = Inr (map (\<lambda>c. PStr [c]) s)"
| "py_iter _ = Inl TypeError"

text \<open>\<^verbatim>\<open>obj.append(x)\<close>: only a list has the method.\<close>

fun py_append :: "pyval \<Rightarrow> pyval \<Rightarrow> py_error + pyval" where
  "py_append (PList xs) x = Inr (PList (xs @ [x]))"
| "py_append _ x = Inl AttributeError"

section \<open>The annotation index: \<^verbatim>\<open>_load_annotations\<close>\<close>

text \<open>
  \<^verbatim>\<open>json.load(open(path))\<close> either raises or returns the parsed document. The file at the
  path is given by what the two library calls do with it:
  \<^item> \<open>Unreadable\<close>: no file that can be opened; \<^verbatim>\<open>open\<close> raises \<^verbatim>\<open>OSError\<close>;
  \<^item> \<open>InvalidUTF8\<close>: bytes that are not text; reading raises \<^verbatim>\<open>UnicodeDecodeError\<close>;
  \<^item> \<open>NotJSON\<close>: text that the decoder rejects with \<^verbatim>\<open>JSONDecodeError\<close>;
  \<^item> \<open>NonStandardJSON doc\<close>: text that is not JSON because it writes one of the literals
    \<^verbatim>\<open>NaN\<close>, \<^verbatim>\<open>Infinity\<close>, \<^verbatim>\<open>-Infinity\<close>, and is JSON otherwise; the decoder accepts it and
    returns \<open>doc\<close>;
  \<^item> \<open>JSONText doc\<close>: valid JSON, decoded to \<open>doc\<close>.
\<close>

datatype json_file =
  Unreadable | InvalidUTF8 | NotJSON | NonStandardJSON pyval | JSONText pyval

fun json_load :: "json_file \<Rightarrow> py_error + pyval" where
  "json_load Unreadable = Inl OSError"
| "json_load InvalidUTF8 = Inl UnicodeDecodeError"
| "json_load NotJSON = Inl JSONDecodeError"
| "json_load (NonStandardJSON doc) = Inr doc"
| "json_load (JSONText doc) = Inr doc"

fun valid_json :: "json_file \<Rightarrow> bool" where
  "valid_json (JSONText doc) = True"
| "valid_json _ = False"

text \<open>
  One round of the loop of \<^verbatim>\<open>_load_annotations\<close>:
  \<^verbatim>\<open>
    if annotation["image_id"] not in entries:
        entries[annotation["image_id"]] = []
    entries[annotation["image_id"]].append(
        {"caption": annotation["caption"], "foil": annotation["foil"]})
  \<close>
  The list stored under the id is looked up before the new record is built, and the
  append writes into that list; with values in place of references the appended list is
  stored back under the same key.
\<close>

definition load_step ::
  "(pyval \<times> pyval) list \<Rightarrow> pyval \<Rightarrow> py_error + (pyval \<times> pyval) list" where
  "load_step entries annotation =
     raising (subscript annotation (PStr ''image_id'')) (\<lambda>k.
     raising (dict_contains entries k) (\<lambda>present.
     raising (if present then Inr entries else dict_setitem entries k (PList [])) (\<lambda>entries1.
     raising (dict_getitem entries1 k) (\<lambda>lst.
     raising (subscript annotation (PStr ''caption'')) (\<lambda>c.
     raising (subscript annotation (PStr ''foil'')) (\<lambda>f.
     raising (py_append lst (PDict [(PStr ''caption'', c), (PStr ''foil'', f)])) (\<lambda>lst1.
     dict_setitem entries1 k lst1)))))))"

fun load_loop ::
  "(pyval \<times> pyval) list \<Rightarrow> pyval list \<Rightarrow> py_error + (pyval \<times> pyval) list" where
  "load_loop entries [] = Inr entries"
| "load_loop entries (annotation # rest) =
     raising (load_step entries annotation) (\<lambda>entries1. load_loop entries1 rest)"

definition load_annotations :: "json_file \<Rightarrow> py_error + pyval" where
  "load_annotations annotations_jsonpath =
     raising (json_load annotations_jsonpath) (\<lambda>annotations_json.
     raising (subscript annotations_json (PStr ''annotations'')) (\<lambda>anns.
     raising (py_iter anns) (\<lambda>xs.
     raising (load_loop [] xs) (\<lambda>entries.
     Inr (PDict entries)))))"

section \<open>The collaborators: tokenizer, feature reader, tensors\<close>

text \<open>
  An attribute of the dataset object holds a Python value, the tokenizer, the feature
  reader, or some other object given by its own attributes. The tokenizer is an object of
  the library class \<^verbatim>\<open>pytorch_pretrained_bert.BertTokenizer\<close>, taken as a parameter: its
  method \<^verbatim>\<open>tokenize\<close>, a function from a string to a list of strings, and its attribute
  \<^verbatim>\<open>vocab\<close>, a dictionary. The reader holds one numeric array per image id; the arrays are an
  abstract type \<open>'f\<close>.
\<close>

datatype 'f attr =
  AVal pyval
| ATokenizer "string \<Rightarrow> string list" "(pyval \<times> pyval) list"
| AReader "(pyval \<times> 'f) list"
| AObject "(string \<times> pyval) list"

type_synonym 'f obj = "(string \<times> 'f attr) list"

text \<open>
  \<^verbatim>\<open>self.name\<close> and \<^verbatim>\<open>self.name = a\<close>. The object is given by its instance attributes:
  the class defines methods only, and neither it nor its base class
  \<^verbatim>\<open>torch.utils.data.Dataset\<close> defines an attribute \<^verbatim>\<open>tokenizer\<close> or \<^verbatim>\<open>dictionary\<close>.
\<close>

definition getattr :: "'f obj \<Rightarrow> string \<Rightarrow> py_error + 'f attr" where
  "getattr self name = (case map_of self name of None \<Rightarrow> Inl AttributeError | Some a \<Rightarrow> Inr a)"

definition setattr :: "'f obj \<Rightarrow> string \<Rightarrow> 'f attr \<Rightarrow> 'f obj" where
  "setattr self name a = (name, a) # self"

text \<open>\<^verbatim>\<open>t.tokenize\<close>, \<^verbatim>\<open>t.vocab\<close>, \<^verbatim>\<open>d.padding_idx\<close>\<close>

fun attr_tokenize :: "'f attr \<Rightarrow> py_error + (string \<Rightarrow> string list)" where
  "attr_tokenize (ATokenizer f vocab) = Inr f"
| "attr_tokenize _ = Inl AttributeError"

fun attr_vocab :: "'f attr \<Rightarrow> py_error + pyval" where
  "attr_vocab (ATokenizer f vocab) = Inr (PDict vocab)"
| "attr_vocab (AObject as) =
     (case map_of as ''vocab'' of None \<Rightarrow> Inl AttributeError | Some v \<Rightarrow> Inr v)"
| "attr_vocab _ = Inl AttributeError"

fun attr_padding_idx :: "'f attr \<Rightarrow> py_error + pyval" where
  "attr_padding_idx (AObject as) =
     (case map_of as ''padding_idx'' of None \<Rightarrow> Inl AttributeError | Some v \<Rightarrow> Inr v)"
| "attr_padding_idx _ = Inl AttributeError"

text \<open>The tokenizer splits a string; handed anything else it raises.\<close>

fun call_tokenize :: "(string \<Rightarrow> string list) \<Rightarrow> pyval \<Rightarrow> py_error + pyval list" where
  "call_tokenize f (PStr text) = Inr (map PStr (f text))"
| "call_tokenize f _ = Inl TypeError"

text \<open>
  Modelled from the spec: the class \<^verbatim>\<open>ImageFeaturesH5Reader\<close> of the module
  \<^verbatim>\<open>_image_features_reader\<close> is missing from the sources at hand. The specification has it
  ``constructed from a path plus an in-memory/lazy mode flag'': the file either cannot be
  opened or holds one array per image id, and the flag does not change what a lookup
  returns.
\<close>

definition ImageFeaturesH5Reader ::
  "py_error + (pyval \<times> 'f) list \<Rightarrow> bool \<Rightarrow> py_error + 'f attr" where
  "ImageFeaturesH5Reader image_features_h5path in_memory =
     raising image_features_h5path (\<lambda>store. Inr (AReader store))"

text \<open>
  Modelled from the spec: the lookup \<^verbatim>\<open>reader[image_id]\<close> of the missing class
  \<^verbatim>\<open>ImageFeaturesH5Reader\<close>, which ``supports keyed lookup
  \<^verbatim>\<open>reader[image_id] -> numeric array\<close>'' and fails ``with a KeyError-class error if an image
  id present in the annotation index is absent from the feature store''.
\<close>

fun reader_getitem :: "'f attr \<Rightarrow> pyval \<Rightarrow> py_error + 'f" where
  "reader_getitem (AReader store) k =
     (case map_of store k of None \<Rightarrow> Inl KeyError | Some a \<Rightarrow> Inr a)"
| "reader_getitem _ k = Inl TypeError"

text \<open>\<^verbatim>\<open>a[k]\<close> where the attribute \<open>a\<close> holds a Python value.\<close>

fun attr_subscript :: "'f attr \<Rightarrow> pyval \<Rightarrow> py_error + pyval" where
  "attr_subscript (AVal v) k = subscript v k"
| "attr_subscript _ k = Inl TypeError"

text \<open>An attribute read as an integer (\<^verbatim>\<open>self._max_caption_length\<close> in a slice bound, a
  comparison and a subtraction).\<close>

fun attr_int :: "'f attr \<Rightarrow> py_error + int" where
  "attr_int (AVal (PInt n)) = Inr n"
| "attr_int (AVal (PBool b)) = Inr (if b then 1 else 0)"
| "attr_int _ = Inl TypeError"

text \<open>\<^verbatim>\<open>len(a)\<close> and the keys of \<^verbatim>\<open>a\<close>, for an attribute \<open>a\<close>\<close>

fun attr_len :: "'f attr \<Rightarrow> py_error + int" where
  "attr_len (AVal (PDict d)) = Inr (int (length d))"
| "attr_len (AVal (PList xs)) = Inr (int (length xs))"
| "attr_len (AVal (PStr s)) = Inr (int (length s))"
| "attr_len _ = Inl TypeError"

fun attr_iter :: "'f attr \<Rightarrow> py_error + pyval list" where
  "attr_iter (AVal v) = py_iter v"
| "attr_iter _ = Inl TypeError"

fun attr_keys :: "'f attr \<Rightarrow> py_error + pyval list" where
  "attr_keys (AVal (PDict d)) = Inr (map fst d)"
| "attr_keys _ = Inl AttributeError"

text \<open>
  \<^verbatim>\<open>torch.tensor\<close> is a function of the library \<^verbatim>\<open>torch\<close> and is taken as a parameter, with
  tensors an abstract type \<open>'t\<close>: on the numeric arrays of the feature store, where it
  returns a tensor, and on Python values, where it may raise. The built-in \<^verbatim>\<open>int\<close> is 0 or 1 on a boolean, the identity on an integer, raises
  \<^verbatim>\<open>ValueError\<close> on \<^verbatim>\<open>NaN\<close>, \<^verbatim>\<open>OverflowError\<close> on an infinity and \<^verbatim>\<open>TypeError\<close> on \<^verbatim>\<open>None\<close>, a
  list or a dictionary; what it makes of a string is a parameter as well.
\<close>

record ('f, 't) externals =
  tensor_of_features :: "'f \<Rightarrow> 't"
  tensor_of_value :: "pyval \<Rightarrow> py_error + 't"
  int_of_string :: "string \<Rightarrow> py_error + int"

fun py_int :: "('f, 't) externals \<Rightarrow> pyval \<Rightarrow> py_error + int" where
  "py_int ext (PBool b) = Inr (if b then 1 else 0)"
| "py_int ext (PInt n) = Inr n"
| "py_int ext (PStr s) = int_of_string ext s"
| "py_int ext (PFloat NaN) = Inl ValueError"
| "py_int ext (PFloat x) = Inl OverflowError"
| "py_int ext v = Inl TypeError"

text \<open>\<^verbatim>\<open>obj[key] = v\<close>\<close>

fun store_item :: "pyval \<Rightarrow> pyval \<Rightarrow> pyval \<Rightarrow> py_error + pyval" where
  "store_item (PDict d) k v = map_sum id PDict (dict_setitem d k v)"
| "store_item (PList xs) (PInt i) v =
     (if 0 \<le> i \<and> i < int (length xs) then Inr (PList (xs[nat i := v]))
      else if - int (length xs) \<le> i \<and> i < 0
        then Inr (PList (xs[nat (int (length xs) + i) := v]))
      else Inl IndexError)"
| "store_item _ k v = Inl TypeError"

text \<open>\<^verbatim>\<open>xs[:m]\<close>: a negative bound counts from the end.\<close>

definition slice_to :: "'a list \<Rightarrow> int \<Rightarrow> 'a list" where
  "slice_to xs m = (if m < 0 then take (nat (int (length xs) + m)) xs else take (nat m) xs)"

section \<open>The class \<^verbatim>\<open>FoilClassificationDataset\<close>\<close>

subsection \<open>\<^verbatim>\<open>tokenize\<close>\<close>

text \<open>
  The inner loop over the wrapped tokens:
  \<^verbatim>\<open>
    for w in sentence_tokens:
        if w in self.tokenizer.vocab:
            tokens.append(self.tokenizer.vocab[w])
        else:
            tokens.append(self.tokenizer.vocab["[UNK]"])
  \<close>
  The attribute read is \<^verbatim>\<open>self.tokenizer\<close>, without the underscore.
\<close>

definition self_tokenizer_vocab :: "'f obj \<Rightarrow> py_error + pyval" where
  "self_tokenizer_vocab self = raising (getattr self ''tokenizer'') attr_vocab"

text \<open>\<^verbatim>\<open>w in c\<close> for a dictionary or a list \<open>c\<close> (the vocabulary is a dictionary; substring
  tests on strings are not modelled).\<close>

fun contains :: "pyval \<Rightarrow> pyval \<Rightarrow> py_error + bool" where
  "contains (PDict d) w = dict_contains d w"
| "contains (PList xs) w = Inr (key_norm w \<in> set (map key_norm xs))"
| "contains _ w = Inl TypeError"

fun vocab_loop :: "'f obj \<Rightarrow> pyval list \<Rightarrow> pyval list \<Rightarrow> py_error + pyval list" where
  "vocab_loop self tokens [] = Inr tokens"
| "vocab_loop self tokens (w # ws) =
     raising (self_tokenizer_vocab self) (\<lambda>vocab.
     raising (contains vocab w) (\<lambda>known.
     raising (self_tokenizer_vocab self) (\<lambda>vocab1.
     raising (subscript vocab1 (if known then w else PStr ''[UNK]'')) (\<lambda>t.
     vocab_loop self (tokens @ [t]) ws))))"

text \<open>
  The body of the outer loop, for the index \<open>i\<close> and the element \<open>entry\<close> that
  \<^verbatim>\<open>enumerate(self._entries)\<close> yields:
  \<^verbatim>\<open>
    sentence_tokens = self._tokenizer.tokenize(entry["caption"])
    sentence_tokens = ["[CLS]"] + sentence_tokens + ["[SEP]"]
    tokens = []
    for w in sentence_tokens: ...
    tokens = tokens[: self._max_caption_length]
    if len(tokens) < self._max_caption_length:
        padding = [self.dictionary.padding_idx] * (self._max_caption_length - len(tokens))
        tokens = padding + tokens
    self._entries[i]["caption"] = tokens
  \<close>
  The padding value is read from \<^verbatim>\<open>self.dictionary.padding_idx\<close>, not from
  \<^verbatim>\<open>self._padding_index\<close>.
\<close>

definition pad_front :: "'f obj \<Rightarrow> int \<Rightarrow> pyval list \<Rightarrow> py_error + pyval list" where
  "pad_front self m tokens =
     (if int (length tokens) < m
      then raising (getattr self ''dictionary'') (\<lambda>d.
           raising (attr_padding_idx d) (\<lambda>p.
           Inr (replicate (nat (m - int (length tokens))) p @ tokens)))
      else Inr tokens)"

definition store_caption :: "'f obj \<Rightarrow> int \<Rightarrow> pyval list \<Rightarrow> py_error + 'f obj" where
  "store_caption self i tokens =
     raising (getattr self ''_entries'') (\<lambda>entries.
     raising (attr_subscript entries (PInt i)) (\<lambda>item.
     raising (store_item item (PStr ''caption'') (PList tokens)) (\<lambda>item1.
     raising (case entries of AVal es \<Rightarrow> store_item es (PInt i) item1 | _ \<Rightarrow> Inl TypeError)
       (\<lambda>entries1.
     Inr (setattr self ''_entries'' (AVal entries1))))))"

definition encode_tokens :: "'f obj \<Rightarrow> pyval list \<Rightarrow> py_error + pyval list" where
  "encode_tokens self sentence_tokens =
     raising (vocab_loop self [] ([PStr ''[CLS]''] @ sentence_tokens @ [PStr ''[SEP]''])) (\<lambda>tokens.
     raising (raising (getattr self ''_max_caption_length'') attr_int) (\<lambda>m.
     pad_front self m (slice_to tokens m)))"

definition tokenize_entry :: "'f obj \<Rightarrow> int \<Rightarrow> pyval \<Rightarrow> py_error + 'f obj" where
  "tokenize_entry self i entry =
     raising (getattr self ''_tokenizer'') (\<lambda>t.
     raising (attr_tokenize t) (\<lambda>tok.
     raising (subscript entry (PStr ''caption'')) (\<lambda>text.
     raising (call_tokenize tok text) (\<lambda>sentence_tokens.
     raising (encode_tokens self sentence_tokens) (\<lambda>tokens.
     store_caption self i tokens)))))"

fun tokenize_loop :: "'f obj \<Rightarrow> int \<Rightarrow> pyval list \<Rightarrow> py_error + 'f obj" where
  "tokenize_loop self i [] = Inr self"
| "tokenize_loop self i (entry # rest) =
     raising (tokenize_entry self i entry) (\<lambda>self1. tokenize_loop self1 (i + 1) rest)"

text \<open>\<^verbatim>\<open>for i, entry in enumerate(self._entries)\<close>: iterating a dictionary yields its keys.\<close>

definition tokenize :: "'f obj \<Rightarrow> py_error + 'f obj" where
  "tokenize self =
     raising (getattr self ''_entries'') (\<lambda>entries.
     raising (attr_iter entries) (\<lambda>keys.
     tokenize_loop self 0 keys))"

subsection \<open>\<^verbatim>\<open>__init__\<close>, \<^verbatim>\<open>__getitem__\<close>, \<^verbatim>\<open>__len__\<close>\<close>

text \<open>The assignments of \<^verbatim>\<open>__init__\<close> before the call of \<^verbatim>\<open>self.tokenize()\<close>.\<close>

definition init_fields ::
  "json_file \<Rightarrow> py_error + (pyval \<times> 'f) list \<Rightarrow> (string \<Rightarrow> string list) \<times> (pyval \<times> pyval) list
     \<Rightarrow> int \<Rightarrow> int \<Rightarrow> bool \<Rightarrow> py_error + 'f obj" where
  "init_fields annotations_jsonpath image_features_h5path tokenizer padding_index
       max_caption_length load_image_features_in_memory =
     raising (load_annotations annotations_jsonpath) (\<lambda>entries.
     raising (ImageFeaturesH5Reader image_features_h5path load_image_features_in_memory)
       (\<lambda>reader.
     Inr (setattr (setattr (setattr (setattr (setattr []
            ''_entries'' (AVal entries))
            ''_image_features_reader'' reader)
            ''_max_caption_length'' (AVal (PInt max_caption_length)))
            ''_tokenizer'' (ATokenizer (fst tokenizer) (snd tokenizer)))
            ''_padding_index'' (AVal (PInt padding_index)))))"

text \<open>\<^verbatim>\<open>self._image_ids = list(self._entries.keys())\<close>\<close>

definition hold_image_ids :: "'f obj \<Rightarrow> py_error + 'f obj" where
  "hold_image_ids self =
     raising (getattr self ''_entries'') (\<lambda>entries.
     raising (attr_keys entries) (\<lambda>keys.
     Inr (setattr self ''_image_ids'' (AVal (PList keys)))))"

definition init ::
  "json_file \<Rightarrow> py_error + (pyval \<times> 'f) list \<Rightarrow> (string \<Rightarrow> string list) \<times> (pyval \<times> pyval) list
     \<Rightarrow> int \<Rightarrow> int \<Rightarrow> bool \<Rightarrow> py_error + 'f obj" where
  "init annotations_jsonpath image_features_h5path tokenizer padding_index
       max_caption_length load_image_features_in_memory =
     raising (init_fields annotations_jsonpath image_features_h5path tokenizer padding_index
                max_caption_length load_image_features_in_memory) (\<lambda>self.
     raising (tokenize self) (\<lambda>self1.
     hold_image_ids self1))"

text \<open>\<^verbatim>\<open>image_id = self._image_ids[index]\<close>\<close>

definition image_id_at :: "'f obj \<Rightarrow> int \<Rightarrow> py_error + pyval" where
  "image_id_at self index =
     raising (getattr self ''_image_ids'') (\<lambda>ids. attr_subscript ids (PInt index))"

text \<open>
  \<^verbatim>\<open>__getitem__\<close>:
  \<^verbatim>\<open>
    image_id = self._image_ids[index]
    entry = self._entries[image_id]
    features = torch.tensor(self._image_features_reader[image_id])
    caption = torch.tensor(entry["caption"])
    target = torch.tensor(int(entry["foil"]))
    spatials = None
    return features, spatials, caption, target
  \<close>
\<close>

definition getitem ::
  "('f, 't) externals \<Rightarrow> 'f obj \<Rightarrow> int \<Rightarrow> py_error + ('t \<times> pyval \<times> 't \<times> 't)" where
  "getitem ext self index =
     raising (image_id_at self index) (\<lambda>image_id.
     raising (getattr self ''_entries'') (\<lambda>entries.
     raising (attr_subscript entries image_id) (\<lambda>entry.
     raising (getattr self ''_image_features_reader'') (\<lambda>reader.
     raising (reader_getitem reader image_id) (\<lambda>array.
     raising (Inr (tensor_of_features ext array)) (\<lambda>features.
     raising (subscript entry (PStr ''caption'')) (\<lambda>c.
     raising (tensor_of_value ext c) (\<lambda>caption.
     raising (subscript entry (PStr ''foil'')) (\<lambda>f.
     raising (py_int ext f) (\<lambda>n.
     raising (tensor_of_value ext (PInt n)) (\<lambda>target.
     Inr (features, PNone, caption, target))))))))))))"

definition len :: "'f obj \<Rightarrow> py_error + int" where
  "len self = raising (getattr self ''_entries'') attr_len"

section \<open>Vocabulary for stating the properties\<close>

text \<open>
  The annotations file the specification calls valid: every record of the
  \<^verbatim>\<open>"annotations"\<close> array has an integer \<^verbatim>\<open>image_id\<close>, a \<^verbatim>\<open>caption\<close> and a \<^verbatim>\<open>foil\<close>.
  \<open>image_id_of\<close> and \<open>kept_fields\<close> read a record the way the code reads it, with
  \<open>subscript\<close>.
\<close>

fun is_int :: "pyval \<Rightarrow> bool" where
  "is_int (PInt i) = True"
| "is_int _ = False"

fun is_list :: "pyval \<Rightarrow> bool" where
  "is_list (PList xs) = True"
| "is_list _ = False"

definition image_id_of :: "pyval \<Rightarrow> pyval option" where
  "image_id_of a = (case subscript a (PStr ''image_id'') of Inr k \<Rightarrow> Some k | Inl e \<Rightarrow> None)"

definition kept_fields :: "pyval \<Rightarrow> pyval option" where
  "kept_fields a =
     (case subscript a (PStr ''caption'') of Inl e \<Rightarrow> None | Inr c \<Rightarrow>
       (case subscript a (PStr ''foil'') of Inl e \<Rightarrow> None | Inr f \<Rightarrow>
          Some (PDict [(PStr ''caption'', c), (PStr ''foil'', f)])))"

definition valid_annotation :: "pyval \<Rightarrow> bool" where
  "valid_annotation a \<longleftrightarrow>
     (case image_id_of a of Some k \<Rightarrow> is_int k | None \<Rightarrow> False) \<and> kept_fields a \<noteq> None"

text \<open>The distinct elements of a list, in the order in which each occurs first.\<close>

primrec first_occurrences :: "'a list \<Rightarrow> 'a list" where
  "first_occurrences [] = []"
| "first_occurrences (x # xs) = x # filter (\<lambda>y. y \<noteq> x) (first_occurrences xs)"

text \<open>An index under construction: integer keys, a list under each key.\<close>

definition good_index :: "(pyval \<times> pyval) list \<Rightarrow> bool" where
  "good_index es \<longleftrightarrow> (\<forall>(k, v) \<in> set es. is_int k \<and> is_list v)"

text \<open>
  What the records of \<open>anns\<close> with image id \<open>k\<close> contribute, in their order in the file,
  each cut down to its caption and foil fields; and the ids of the records in file order.
\<close>

definition group_of :: "pyval \<Rightarrow> pyval list \<Rightarrow> pyval list" where
  "group_of k anns = map (the \<circ> kept_fields) (filter (\<lambda>a. image_id_of a = Some k) anns)"

text \<open>The list already stored under a key (empty when the key is new).\<close>

definition old_list :: "(pyval \<times> pyval) list \<Rightarrow> pyval \<Rightarrow> pyval list" where
  "old_list es k = (case dict_find es k of Some (PList l) \<Rightarrow> l | _ \<Rightarrow> [])"

definition ids_of :: "pyval list \<Rightarrow> pyval list" where
  "ids_of anns = map (the \<circ> image_id_of) anns"

text \<open>The id of a token in a vocabulary, with the id \<open>unk\<close> for a token that is not in it.\<close>

definition vocab_id :: "(pyval \<times> pyval) list \<Rightarrow> pyval \<Rightarrow> pyval \<Rightarrow> pyval" where
  "vocab_id vocab unk w = (case dict_find vocab w of Some t \<Rightarrow> t | None \<Rightarrow> unk)"

text \<open>The object as \<^verbatim>\<open>__init__\<close> has it when it calls \<^verbatim>\<open>self.tokenize()\<close>.\<close>

definition fields_of ::
  "pyval \<Rightarrow> (pyval \<times> 'f) list \<Rightarrow> (string \<Rightarrow> string list) \<times> (pyval \<times> pyval) list \<Rightarrow> int \<Rightarrow> int \<Rightarrow> 'f obj" where
  "fields_of entries store tokenizer padding_index max_caption_length =
     [(''_padding_index'', AVal (PInt padding_index)),
      (''_tokenizer'', ATokenizer (fst tokenizer) (snd tokenizer)),
      (''_max_caption_length'', AVal (PInt max_caption_length)),
      (''_image_features_reader'', AReader store),
      (''_entries'', AVal entries)]"

subsection \<open>Concrete inputs\<close>

text \<open>
  An annotation record with an extra field \<^verbatim>\<open>id\<close>, the two files of the specification's
  examples (image ids 1, 1 with captions ``a dog'' and ``a cat''; image ids 5, 5, 7 with
  captions a, b, c), a tokenizer that splits at blanks with a five-word vocabulary, and a
  feature store that knows the image ids 1, 5 and 7.
\<close>

definition annotation_json :: "int \<Rightarrow> string \<Rightarrow> bool \<Rightarrow> pyval" where
  "annotation_json i c f =
     PDict [(PStr ''id'', PInt 0), (PStr ''image_id'', PInt i), (PStr ''caption'', PStr c),
            (PStr ''foil'', PBool f)]"

definition annotations_file :: "pyval list \<Rightarrow> json_file" where
  "annotations_file anns = JSONText (PDict [(PStr ''annotations'', PList anns)])"

definition scenario_annotations :: "pyval list" where
  "scenario_annotations = [annotation_json 1 ''a dog'' False, annotation_json 1 ''a cat'' True]"

definition grouping_annotations :: "pyval list" where
  "grouping_annotations =
     [annotation_json 5 ''a'' False, annotation_json 5 ''b'' True, annotation_json 7 ''c'' False]"

text \<open>\<open>split_words []\<close> cuts a string at its blanks.\<close>

fun split_words :: "string \<Rightarrow> string \<Rightarrow> string list" where
  "split_words w [] = (if w = [] then [] else [w])"
| "split_words w (c # cs) =
     (if c = CHR '' '' then (if w = [] then split_words [] cs else w # split_words [] cs)
      else split_words (w @ [c]) cs)"

definition example_tokenizer :: "(string \<Rightarrow> string list) \<times> (pyval \<times> pyval) list" where
  "example_tokenizer =
     (split_words [],
      [(PStr ''[CLS]'', PInt 101), (PStr ''[SEP]'', PInt 102), (PStr ''[UNK]'', PInt 100),
       (PStr ''a'', PInt 1037), (PStr ''dog'', PInt 3899)])"

definition example_store :: "(pyval \<times> nat) list" where
  "example_store = [(PInt 1, 11), (PInt 5, 55), (PInt 7, 77)]"

text \<open>
  The index of the scenario (\<open>load_scenario\<close> below evaluates \<^verbatim>\<open>_load_annotations\<close> to it),
  and the object that holds it and the list of its keys: the attributes that \<^verbatim>\<open>__init__\<close>
  assigns, as its statements before and after the call of \<^verbatim>\<open>self.tokenize()\<close> leave them
  (\<open>scenario_dataset_built\<close>). \<^verbatim>\<open>__init__\<close> itself does not return this object: the call
  in between raises.
\<close>

definition scenario_index :: pyval where
  "scenario_index =
     PDict [(PInt 1, PList [PDict [(PStr ''caption'', PStr ''a dog''), (PStr ''foil'', PBool False)],
                            PDict [(PStr ''caption'', PStr ''a cat''), (PStr ''foil'', PBool True)]])]"

definition scenario_dataset :: "nat obj" where
  "scenario_dataset =
     setattr (fields_of scenario_index example_store example_tokenizer 0 5)
       ''_image_ids'' (AVal (PList [PInt 1]))"

text \<open>A file with the image ids 7, 5, 7, in which the first occurrences are not sorted.\<close>

definition reordered_annotations :: "pyval list" where
  "reordered_annotations =
     [annotation_json 7 ''a'' False, annotation_json 5 ''b'' True, annotation_json 7 ''c'' False]"


text \<open>The object of the scenario at the moment \<^verbatim>\<open>__init__\<close> calls \<^verbatim>\<open>self.tokenize()\<close>.\<close>

definition scenario_fields :: "nat obj" where
  "scenario_fields = fields_of scenario_index example_store example_tokenizer 0 5"

text \<open>
  The dataset that \<^verbatim>\<open>__init__\<close> returns for an annotations file without records, and a
  file that is JSON but for the literal \<^verbatim>\<open>NaN\<close>:
  \<^verbatim>\<open>{"annotations": [], "score": NaN}\<close>.
\<close>

definition empty_dataset :: "nat obj" where
  "empty_dataset =
     setattr (fields_of (PDict []) example_store example_tokenizer 0 5)
       ''_image_ids'' (AVal (PList []))"

definition nan_file :: json_file where
  "nan_file =
     NonStandardJSON (PDict [(PStr ''annotations'', PList []), (PStr ''score'', PFloat NaN)])"

text \<open>
  A parsed document lacks the top-level key \<^verbatim>\<open>"annotations"\<close> when it is an object without
  that key or no object at all (an array, a string, a number, a boolean, \<^verbatim>\<open>null\<close>).
\<close>

fun is_dict :: "pyval \<Rightarrow> bool" where
  "is_dict (PDict d) = True"
| "is_dict _ = False"

fun lacks_annotations :: "pyval \<Rightarrow> bool" where
  "lacks_annotations (PDict d) = (dict_find d (PStr ''annotations'') = None)"
| "lacks_annotations _ = True"

section \<open>Basic facts about the model\<close>

lemma raising_Inl [simp]: "raising (Inl e) f = Inl e"
  by (simp add: raising_def)

lemma raising_Inr [simp]: "raising (Inr x) f = f x"
  by (simp add: raising_def)

lemma raising_eq_Inr: "raising m f = Inr y \<longleftrightarrow> (\<exists>x. m = Inr x \<and> f x = Inr y)"
  by (cases m) simp_all

lemma getattr_setattr [simp]:
  "getattr (setattr self n a) n' = (if n' = n then Inr a else getattr self n')"
  by (simp add: getattr_def setattr_def)

lemma getattr_Nil [simp]: "getattr [] n = Inl AttributeError"
  by (simp add: getattr_def)

lemma subscript_key: "hashable k \<Longrightarrow> subscript k (PStr s) = Inl TypeError"
  by (cases k) simp_all

lemma dict_store_keys: "fst ` set (dict_store d k v) \<subseteq> insert k (fst ` set d)"
proof (induction d)
  case Nil
  show ?case by simp
next
  case (Cons p d)
  obtain k' v' where p: "p = (k', v')" by (cases p)
  show ?case
  proof (cases "key_norm k' = key_norm k")
    case True
    then show ?thesis using p by auto
  next
    case False
    then show ?thesis using p Cons.IH by auto
  qed
qed

lemma dict_store_nonempty: "dict_store d k v \<noteq> []"
  by (cases d) (auto split: if_splits)

lemma dict_setitem_Inr:
  "dict_setitem d k v = Inr d' \<longleftrightarrow> hashable k \<and> d' = dict_store d k v"
  by (auto simp: dict_setitem_def)

section \<open>The loop of \<^verbatim>\<open>_load_annotations\<close>\<close>

lemma load_step_Inr:
  assumes "load_step es a = Inr es'"
  obtains k es1 lst c f where "subscript a (PStr ''image_id'') = Inr k" and "hashable k"
    and "es1 = (if dict_find es k \<noteq> None then es else dict_store es k (PList []))"
    and "dict_find es1 k = Some (PList lst)"
    and "subscript a (PStr ''caption'') = Inr c" and "subscript a (PStr ''foil'') = Inr f"
    and "es' = dict_store es1 k (PList (lst @ [PDict [(PStr ''caption'', c), (PStr ''foil'', f)]]))"
proof -
  from assms obtain k where k: "subscript a (PStr ''image_id'') = Inr k"
    and r1: "raising (dict_contains es k) (\<lambda>present.
     raising (if present then Inr es else dict_setitem es k (PList [])) (\<lambda>entries1.
     raising (dict_getitem entries1 k) (\<lambda>lst.
     raising (subscript a (PStr ''caption'')) (\<lambda>c.
     raising (subscript a (PStr ''foil'')) (\<lambda>f.
     raising (py_append lst (PDict [(PStr ''caption'', c), (PStr ''foil'', f)])) (\<lambda>lst1.
     dict_setitem entries1 k lst1)))))) = Inr es'"
    unfolding load_step_def raising_eq_Inr by blast
  from r1 have h: "hashable k"
    by (cases "hashable k") (simp_all add: dict_contains_def)
  define es1 where "es1 = (if dict_find es k \<noteq> None then es else dict_store es k (PList []))"
  from r1 h have r2: "raising (dict_getitem es1 k) (\<lambda>lst.
     raising (subscript a (PStr ''caption'')) (\<lambda>c.
     raising (subscript a (PStr ''foil'')) (\<lambda>f.
     raising (py_append lst (PDict [(PStr ''caption'', c), (PStr ''foil'', f)])) (\<lambda>lst1.
     dict_setitem es1 k lst1)))) = Inr es'"
    by (simp add: dict_contains_def dict_setitem_def es1_def split: if_splits)
  then obtain l c f l1 where l: "dict_getitem es1 k = Inr l"
    and c: "subscript a (PStr ''caption'') = Inr c" and f: "subscript a (PStr ''foil'') = Inr f"
    and l1: "py_append l (PDict [(PStr ''caption'', c), (PStr ''foil'', f)]) = Inr l1"
    and e: "dict_setitem es1 k l1 = Inr es'"
    unfolding raising_eq_Inr by blast
  from l1 obtain lst where lst: "l = PList lst" "l1 = PList (lst @ [PDict [(PStr ''caption'', c), (PStr ''foil'', f)]])"
    by (cases l) auto
  from l h lst have "dict_find es1 k = Some (PList lst)"
    by (auto simp: dict_getitem_def split: option.splits)
  moreover from e have "es' = dict_store es1 k l1" by (simp add: dict_setitem_Inr)
  ultimately show thesis using that k h es1_def c f lst by blast
qed

lemma key_norm_int: "is_int k \<Longrightarrow> key_norm k = k"
  by (cases k) simp_all

lemma is_int_hashable: "is_int k \<Longrightarrow> hashable k"
  by (cases k) simp_all

lemma dict_find_store:
  "dict_find (dict_store d k v) k' = (if key_norm k' = key_norm k then Some v else dict_find d k')"
  by (induction d) (auto split: if_splits)

lemma dict_find_None: "dict_find d k = None \<longleftrightarrow> key_norm k \<notin> key_norm ` fst ` set d"
  by (induction d) (auto split: if_splits)

lemma dict_store_fst:
  "map fst (dict_store d k v) = (if dict_find d k = None then map fst d @ [k] else map fst d)"
  by (induction d) (auto split: if_splits)

lemma dict_store_set:
  "set (dict_store d k v) \<subseteq> set d \<union> {(k', v') . v' = v \<and> (k' = k \<or> k' \<in> fst ` set d)}"
  by (induction d) (force split: if_splits)+

lemma good_index_find:
  "good_index es \<Longrightarrow> is_int k \<Longrightarrow> dict_find es k = None \<longleftrightarrow> k \<notin> fst ` set es"
proof -
  assume g: "good_index es" and k: "is_int k"
  have "key_norm ` fst ` set es = fst ` set es"
    using g key_norm_int unfolding good_index_def by force
  then show ?thesis using k by (simp add: dict_find_None key_norm_int)
qed

lemma good_index_store:
  "good_index es \<Longrightarrow> is_int k \<Longrightarrow> is_list v \<Longrightarrow> good_index (dict_store es k v)"
  using dict_store_set [of es k v] unfolding good_index_def by fastforce

lemma good_index_lookup:
  "good_index es \<Longrightarrow> dict_find es k = Some v \<Longrightarrow> is_list v"
  by (induction es) (auto simp: good_index_def split: if_splits)

lemma load_step_valid:
  assumes g: "good_index es" and k: "image_id_of a = Some k" "is_int k"
    and r: "kept_fields a = Some r"
  shows "load_step es a =
    Inr (dict_store (if dict_find es k = None then dict_store es k (PList []) else es) k
           (PList (old_list es k @ [r])))"
proof -
  from k(1) have sk: "subscript a (PStr ''image_id'') = Inr k"
    by (simp add: image_id_of_def split: sum.splits)
  from r obtain c f where c: "subscript a (PStr ''caption'') = Inr c"
    and f: "subscript a (PStr ''foil'') = Inr f"
    and rr: "r = PDict [(PStr ''caption'', c), (PStr ''foil'', f)]"
    by (auto simp: kept_fields_def split: sum.splits)
  have h: "hashable k" using k(2) by (rule is_int_hashable)
  show ?thesis
  proof (cases "dict_find es k")
    case None
    then show ?thesis
      unfolding load_step_def
      by (simp add: sk c f rr h dict_contains_def dict_setitem_def dict_getitem_def
          dict_find_store old_list_def)
  next
    case (Some v)
    with g obtain l where v: "v = PList l"
      using good_index_lookup [of es k v] by (cases v) auto
    with Some show ?thesis
      unfolding load_step_def
      by (simp add: sk c f rr h dict_contains_def dict_setitem_def dict_getitem_def old_list_def)
  qed
qed

lemma load_step_props:
  assumes g: "good_index es" and k: "image_id_of a = Some k" "is_int k"
    and r: "kept_fields a = Some r"
  obtains es1 where "load_step es a = Inr es1" and "good_index es1"
    and "map fst es1 = (if k \<in> fst ` set es then map fst es else map fst es @ [k])"
    and "\<And>k'. is_int k' \<Longrightarrow> dict_find es1 k' =
           (if k' = k then Some (PList (old_list es k @ [r])) else dict_find es k')"
proof -
  define es0 where "es0 = (if dict_find es k = None then dict_store es k (PList []) else es)"
  define es1 where "es1 = dict_store es0 k (PList (old_list es k @ [r]))"
  have 1: "load_step es a = Inr es1"
    using load_step_valid [OF g k r] by (simp add: es1_def es0_def)
  have g0: "good_index es0"
    using g k(2) by (simp add: es0_def good_index_store)
  then have 2: "good_index es1"
    using k(2) by (simp add: es1_def good_index_store)
  have f0: "dict_find es0 k \<noteq> None"
    by (simp add: es0_def dict_find_store)
  have m0: "map fst es0 = (if k \<in> fst ` set es then map fst es else map fst es @ [k])"
    using good_index_find [OF g k(2)] by (simp add: es0_def dict_store_fst)
  have 3: "map fst es1 = (if k \<in> fst ` set es then map fst es else map fst es @ [k])"
    using f0 m0 by (simp add: es1_def dict_store_fst)
  have 4: "dict_find es1 k' =
           (if k' = k then Some (PList (old_list es k @ [r])) else dict_find es k')"
    if "is_int k'" for k'
    using that k(2) by (auto simp: es1_def es0_def dict_find_store key_norm_int)
  from 1 2 3 4 that show thesis by blast
qed

lemma old_list_step:
  assumes "is_int k'"
    and "\<And>k'. is_int k' \<Longrightarrow> dict_find es1 k' =
           (if k' = k then Some (PList (old_list es k @ [r])) else dict_find es k')"
  shows "old_list es1 k' = (if k' = k then old_list es k @ [r] else old_list es k')"
  using assms by (simp add: old_list_def)

lemma load_loop_valid:
  assumes "good_index es" and "\<forall>a \<in> set anns. valid_annotation a"
  shows "\<exists>es'. load_loop es anns = Inr es' \<and> good_index es'
     \<and> map fst es' = map fst es @ filter (\<lambda>k. k \<notin> fst ` set es) (first_occurrences (ids_of anns))
     \<and> (\<forall>k. is_int k \<longrightarrow> dict_find es' k =
          (if k \<in> fst ` set es \<or> k \<in> set (ids_of anns)
           then Some (PList (old_list es k @ group_of k anns)) else None))"
  using assms
proof (induction anns arbitrary: es)
  case Nil
  have "dict_find es k = (if k \<in> fst ` set es then Some (PList (old_list es k)) else None)"
    if "is_int k" for k
  proof (cases "dict_find es k")
    case None
    then show ?thesis using good_index_find [OF Nil.prems(1) that] by simp
  next
    case (Some v)
    then obtain l where "v = PList l"
      using good_index_lookup [OF Nil.prems(1) Some] by (cases v) auto
    with Some show ?thesis
      using good_index_find [OF Nil.prems(1) that] by (simp add: old_list_def)
  qed
  with Nil show ?case by (simp add: ids_of_def group_of_def)
next
  case (Cons a anns)
  from Cons.prems(2) have va: "valid_annotation a" and vs: "\<forall>a \<in> set anns. valid_annotation a"
    by simp_all
  from va obtain k r where k: "image_id_of a = Some k" "is_int k" and r: "kept_fields a = Some r"
    by (auto simp: valid_annotation_def split: option.splits)
  from load_step_props [OF Cons.prems(1) k r] obtain es1 where
    s: "load_step es a = Inr es1" and g1: "good_index es1"
    and m1: "map fst es1 = (if k \<in> fst ` set es then map fst es else map fst es @ [k])"
    and f1: "\<And>k'. is_int k' \<Longrightarrow> dict_find es1 k' =
           (if k' = k then Some (PList (old_list es k @ [r])) else dict_find es k')"
    by blast
  from Cons.IH [OF g1 vs] obtain es' where
    l: "load_loop es1 anns = Inr es'" and g': "good_index es'"
    and m': "map fst es' = map fst es1 @ filter (\<lambda>k. k \<notin> fst ` set es1) (first_occurrences (ids_of anns))"
    and f': "\<And>k. is_int k \<Longrightarrow> dict_find es' k =
          (if k \<in> fst ` set es1 \<or> k \<in> set (ids_of anns)
           then Some (PList (old_list es1 k @ group_of k anns)) else None)"
    by blast
  have s1: "fst ` set es1 = insert k (fst ` set es)"
  proof -
    have "set (map fst es1) = insert k (set (map fst es))"
      unfolding m1 by auto
    then show ?thesis by simp
  qed
  have ids: "ids_of (a # anns) = k # ids_of anns"
    using k by (simp add: ids_of_def)
  have 1: "load_loop es (a # anns) = Inr es'"
    using s l by simp
  have 3: "map fst es' = map fst es @
      filter (\<lambda>k. k \<notin> fst ` set es) (first_occurrences (ids_of (a # anns)))"
  proof (cases "k \<in> fst ` set es")
    case True
    then have "fst ` set es1 = fst ` set es" using s1 by auto
    moreover have "filter (\<lambda>x. x \<noteq> k \<and> x \<notin> fst ` set es) xs =
          filter (\<lambda>x. x \<notin> fst ` set es) xs" for xs
      using True by (induction xs) auto
    ultimately show ?thesis
      using True m' m1 by (simp add: ids)
  next
    case False
    have "filter (\<lambda>x. x \<notin> insert k (fst ` set es)) xs =
          filter (\<lambda>x. x \<notin> fst ` set es) (filter (\<lambda>y. y \<noteq> k) xs)" for xs
      by (induction xs) auto
    then show ?thesis
      using False m' m1 s1 by (simp add: ids)
  qed
  have 4: "dict_find es' k' =
          (if k' \<in> fst ` set es \<or> k' \<in> set (ids_of (a # anns))
           then Some (PList (old_list es k' @ group_of k' (a # anns))) else None)"
    if ik: "is_int k'" for k'
  proof -
    have o: "old_list es1 k' = (if k' = k then old_list es k @ [r] else old_list es k')"
      using old_list_step [OF ik f1] by simp
    have gr: "group_of k' (a # anns) = (if k' = k then r # group_of k' anns else group_of k' anns)"
      using k r by (auto simp: group_of_def)
    show ?thesis
      using f' [OF ik] o gr s1 by (auto simp: ids)
  qed
  from 1 g' 3 4 show ?case by blast
qed

lemma first_occurrences_set [simp]: "set (first_occurrences xs) = set xs"
  by (induction xs) auto

lemma first_occurrences_distinct [simp]: "distinct (first_occurrences xs)"
  by (induction xs) auto

lemma first_occurrences_remdups: "first_occurrences xs = rev (remdups (rev xs))"
proof (induction xs)
  case Nil
  show ?case by simp
next
  case (Cons x xs)
  have "remdups (ys @ [x]) = filter (\<lambda>y. y \<noteq> x) (remdups ys) @ [x]" for ys :: "'a list"
    by (induction ys) auto
  then show ?case using Cons by (simp add: rev_filter)
qed

lemma load_loop_keys:
  "load_loop es xs = Inr es' \<Longrightarrow> \<forall>k \<in> fst ` set es. hashable k \<Longrightarrow> \<forall>k \<in> fst ` set es'. hashable k"
proof (induction xs arbitrary: es)
  case Nil
  then show ?case by simp
next
  case (Cons a xs)
  from Cons.prems(1) obtain es1 where s: "load_step es a = Inr es1" and l: "load_loop es1 xs = Inr es'"
    by (auto simp: raising_eq_Inr)
  from load_step_Inr [OF s] obtain k e0 v where k: "hashable k"
    and e0: "e0 = (if dict_find es k \<noteq> None then es else dict_store es k (PList []))"
    and es1: "es1 = dict_store e0 k v"
    by metis
  have "fst ` set e0 \<subseteq> insert k (fst ` set es)"
    using dict_store_keys [of es k "PList []"] by (cases "dict_find es k \<noteq> None") (auto simp: e0)
  then have "fst ` set es1 \<subseteq> insert k (fst ` set es)"
    using dict_store_keys [of e0 k v] es1 by blast
  then have "\<forall>k \<in> fst ` set es1. hashable k"
    using k Cons.prems(2) by blast
  from Cons.IH [OF l this] show ?case .
qed

lemma load_loop_nonempty:
  "load_loop es xs = Inr es' \<Longrightarrow> es \<noteq> [] \<or> xs \<noteq> [] \<Longrightarrow> es' \<noteq> []"
proof (induction xs arbitrary: es)
  case Nil
  then show ?case by simp
next
  case (Cons a xs)
  from Cons.prems(1) obtain es1 where s: "load_step es a = Inr es1" and l: "load_loop es1 xs = Inr es'"
    by (auto simp: raising_eq_Inr)
  from load_step_Inr [OF s] have "es1 \<noteq> []"
    using dict_store_nonempty by metis
  with Cons.IH [OF l] show ?case by blast
qed

lemma load_annotations_Inr:
  assumes "load_annotations jf = Inr entries"
  obtains doc anns xs es where "json_load jf = Inr doc"
    and "subscript doc (PStr ''annotations'') = Inr anns" and "py_iter anns = Inr xs"
    and "load_loop [] xs = Inr es" and "entries = PDict es" and "\<forall>k \<in> fst ` set es. hashable k"
proof -
  from assms obtain doc anns xs es where *: "json_load jf = Inr doc"
    "subscript doc (PStr ''annotations'') = Inr anns" "py_iter anns = Inr xs"
    "load_loop [] xs = Inr es" "entries = PDict es"
    unfolding load_annotations_def raising_eq_Inr by blast
  from load_loop_keys [OF *(4)] have "\<forall>k \<in> fst ` set es. hashable k" by simp
  then show thesis using * that by blast
qed

section \<open>Construction\<close>

lemma init_fields_Inr:
  "init_fields jf h5 tk pad m mem = Inr self \<longleftrightarrow>
     (\<exists>entries store. load_annotations jf = Inr entries \<and> h5 = Inr store
        \<and> self = fields_of entries store tk pad m)"
  unfolding init_fields_def ImageFeaturesH5Reader_def raising_eq_Inr
  by (auto simp: setattr_def fields_of_def)

lemma getattr_fields_of:
  "getattr (fields_of entries store tk pad m) n =
    (if n = ''_padding_index'' then Inr (AVal (PInt pad))
     else if n = ''_tokenizer'' then Inr (ATokenizer (fst tk) (snd tk))
     else if n = ''_max_caption_length'' then Inr (AVal (PInt m))
     else if n = ''_image_features_reader'' then Inr (AReader store)
     else if n = ''_entries'' then Inr (AVal entries)
     else Inl AttributeError)"
  by (simp add: getattr_def fields_of_def)

lemma tokenize_entry_key:
  assumes "getattr self ''_tokenizer'' = Inr (ATokenizer f vocab)" and "hashable k"
  shows "tokenize_entry self i k = Inl TypeError"
  unfolding tokenize_entry_def using assms by (simp add: subscript_key)

lemma tokenize_fields_of:
  assumes "\<forall>k \<in> fst ` set es. hashable k"
  shows "tokenize (fields_of (PDict es) store tk pad m) =
     (if es = [] then Inr (fields_of (PDict es) store tk pad m) else Inl TypeError)"
proof (cases es)
  case Nil
  then show ?thesis by (simp add: tokenize_def getattr_fields_of)
next
  case (Cons p ps)
  with assms have "hashable (fst p)" by simp
  then have "tokenize_entry (fields_of (PDict es) store tk pad m) 0 (fst p) = Inl TypeError"
    by (intro tokenize_entry_key [where f = "fst tk" and vocab = "snd tk"])
       (simp_all add: getattr_fields_of)
  with Cons show ?thesis by (simp add: tokenize_def getattr_fields_of)
qed

lemma init_eq:
  assumes "load_annotations jf = Inr entries"
  shows "init jf (Inr store) tk pad m mem =
     (if entries = PDict []
      then Inr (setattr (fields_of entries store tk pad m) ''_image_ids'' (AVal (PList [])))
      else Inl TypeError)"
proof -
  from load_annotations_Inr [OF assms] obtain es where es: "entries = PDict es"
    and h: "\<forall>k \<in> fst ` set es. hashable k" by metis
  have f: "init_fields jf (Inr store) tk pad m mem = Inr (fields_of entries store tk pad m)"
    using assms by (simp add: init_fields_Inr)
  show ?thesis
    unfolding init_def f using tokenize_fields_of [OF h, of store tk pad m]
    by (simp add: es hold_image_ids_def getattr_fields_of)
qed

lemma init_cases:
  "init jf h5 tk pad m mem =
     (case load_annotations jf of Inl e \<Rightarrow> Inl e | Inr entries \<Rightarrow>
       (case h5 of Inl e \<Rightarrow> Inl e | Inr store \<Rightarrow>
          if entries = PDict []
          then Inr (setattr (fields_of entries store tk pad m) ''_image_ids'' (AVal (PList [])))
          else Inl TypeError))"
proof (cases "load_annotations jf")
  case (Inl e)
  then show ?thesis by (simp add: init_def init_fields_def)
next
  case (Inr entries)
  show ?thesis
  proof (cases h5)
    case (Inl e)
    then show ?thesis using Inr by (simp add: init_def init_fields_def ImageFeaturesH5Reader_def)
  next
    case (Inr store)
    then show ?thesis
      using \<open>load_annotations jf = Inr entries\<close>
        init_eq [OF \<open>load_annotations jf = Inr entries\<close>, of store tk pad m mem]
      by simp
  qed
qed

section \<open>The concrete inputs, evaluated\<close>

lemma load_scenario:
  "load_annotations (annotations_file scenario_annotations) =
     Inr (PDict [(PInt 1, PList [PDict [(PStr ''caption'', PStr ''a dog''), (PStr ''foil'', PBool False)],
                                 PDict [(PStr ''caption'', PStr ''a cat''), (PStr ''foil'', PBool True)]])])"
  by code_simp

lemma load_empty: "load_annotations (annotations_file []) = Inr (PDict [])"
  by code_simp


section \<open>The claims\<close>

text \<open>
  Claim C8. Whenever the \<^verbatim>\<open>"annotations"\<close> array holds at least one record, \<^verbatim>\<open>__init__\<close>
  raises. When the annotations were loaded and the feature reader opened, the exception
  comes from the tokenization pass and is a \<^verbatim>\<open>TypeError\<close>: the pass iterates over the keys
  of the index and subscripts a key with \<^verbatim>\<open>"caption"\<close>. The attributes \<^verbatim>\<open>tokenizer\<close> and
  \<^verbatim>\<open>dictionary\<close> that the pass reads are not attributes of the object: even on an element
  that is a record with a string caption the body of the loop raises
  \<^verbatim>\<open>AttributeError\<close>. Construction completes only when the index is empty.
\<close>

theorem init_raises_unless_index_empty:
  "(init jf h5 tk pad m mem = Inr self \<longrightarrow> load_annotations jf = Inr (PDict []))
   \<and> (init_fields jf h5 tk pad m mem = Inr self0 \<longrightarrow>
        getattr self0 ''tokenizer'' = Inl AttributeError
        \<and> getattr self0 ''dictionary'' = Inl AttributeError
        \<and> (subscript entry (PStr ''caption'') = Inr (PStr text) \<longrightarrow>
             tokenize_entry self0 i entry = Inl AttributeError)
        \<and> (getattr self0 ''_entries'' \<noteq> Inr (AVal (PDict [])) \<longrightarrow>
             tokenize self0 = Inl TypeError \<and> init jf h5 tk pad m mem = Inl TypeError))
   \<and> (jf = JSONText doc \<and> subscript doc (PStr ''annotations'') = Inr (PList (a # anns)) \<longrightarrow>
        (\<exists>e. init jf h5 tk pad m mem = Inl e))"
proof (intro conjI impI)
  assume "init jf h5 tk pad m mem = Inr self"
  then show "load_annotations jf = Inr (PDict [])"
    unfolding init_cases by (auto split: sum.splits if_splits)
next
  assume f: "init_fields jf h5 tk pad m mem = Inr self0"
  then obtain entries store where l: "load_annotations jf = Inr entries" and h: "h5 = Inr store"
    and s: "self0 = fields_of entries store tk pad m"
    unfolding init_fields_Inr by blast
  show "getattr self0 ''tokenizer'' = Inl AttributeError"
    and d: "getattr self0 ''dictionary'' = Inl AttributeError"
    by (simp_all add: s getattr_fields_of)
  {
    assume "subscript entry (PStr ''caption'') = Inr (PStr text)"
    then show "tokenize_entry self0 i entry = Inl AttributeError"
      unfolding tokenize_entry_def encode_tokens_def
      by (simp add: s getattr_fields_of self_tokenizer_vocab_def)
  }
  {
    assume "getattr self0 ''_entries'' \<noteq> Inr (AVal (PDict []))"
    then have ne: "entries \<noteq> PDict []" by (simp add: s getattr_fields_of)
    from load_annotations_Inr [OF l] obtain es where es: "entries = PDict es"
      and hk: "\<forall>k \<in> fst ` set es. hashable k" by metis
    show "tokenize self0 = Inl TypeError"
      using tokenize_fields_of [OF hk, of store tk pad m] ne by (simp add: s es)
    show "init jf h5 tk pad m mem = Inl TypeError"
      using init_eq [OF l, of store tk pad m mem] ne h by simp
  }
next
  assume "jf = JSONText doc \<and> subscript doc (PStr ''annotations'') = Inr (PList (a # anns))"
  then have jf: "jf = JSONText doc"
    and an: "subscript doc (PStr ''annotations'') = Inr (PList (a # anns))" by simp_all
  show "\<exists>e. init jf h5 tk pad m mem = Inl e"
  proof (cases "load_annotations jf")
    case (Inl e)
    then show ?thesis by (simp add: init_cases)
  next
    case (Inr entries)
    from load_annotations_Inr [OF Inr] obtain doc' anns' xs es where
      "json_load jf = Inr doc'" "subscript doc' (PStr ''annotations'') = Inr anns'"
      "py_iter anns' = Inr xs" "load_loop [] xs = Inr es" "entries = PDict es"
      by metis
    with jf an have "load_loop [] (a # anns) = Inr es" and e: "entries = PDict es" by auto
    from load_loop_nonempty [OF this(1)] have "es \<noteq> []" by simp
    with e Inr show ?thesis by (cases h5) (simp_all add: init_cases)
  qed
qed

theorem init_raises_unless_index_empty_witness:
  "init_fields (annotations_file scenario_annotations) (Inr example_store) example_tokenizer 0 5 True
     = Inr (fields_of (PDict [(PInt 1, PList [PDict [(PStr ''caption'', PStr ''a dog''), (PStr ''foil'', PBool False)],
                                 PDict [(PStr ''caption'', PStr ''a cat''), (PStr ''foil'', PBool True)]])])
             example_store example_tokenizer 0 5)
   \<and> tokenize (fields_of (PDict [(PInt 1, PList [PDict [(PStr ''caption'', PStr ''a dog''), (PStr ''foil'', PBool False)],
                                 PDict [(PStr ''caption'', PStr ''a cat''), (PStr ''foil'', PBool True)]])])
             example_store example_tokenizer 0 5) = Inl TypeError
   \<and> init (annotations_file scenario_annotations) (Inr example_store) example_tokenizer 0 5 True
     = Inl TypeError
   \<and> (\<exists>self. init (annotations_file []) (Inr example_store) example_tokenizer 0 5 True = Inr self)
   \<and> load_annotations (annotations_file []) = Inr (PDict [])"
proof -
  let ?es = "[(PInt 1, PList [PDict [(PStr ''caption'', PStr ''a dog''), (PStr ''foil'', PBool False)],
                                 PDict [(PStr ''caption'', PStr ''a cat''), (PStr ''foil'', PBool True)]])]"
  let ?self0 = "fields_of (PDict ?es) example_store example_tokenizer 0 5 :: nat obj"
  have f: "init_fields (annotations_file scenario_annotations) (Inr example_store)
             example_tokenizer 0 5 True = Inr ?self0"
    by (simp add: init_fields_Inr load_scenario)
  have ne: "getattr ?self0 ''_entries'' \<noteq> Inr (AVal (PDict []))"
    by (simp add: getattr_fields_of)
  have e: "init (annotations_file []) (Inr example_store) example_tokenizer 0 5 True
     = Inr (setattr (fields_of (PDict []) example_store example_tokenizer 0 5) ''_image_ids'' (AVal (PList [])))"
    by (simp add: init_cases load_empty)
  from init_raises_unless_index_empty
    [of "annotations_file scenario_annotations" "Inr example_store" example_tokenizer 0 5 True
        undefined ?self0] f ne
  have "tokenize ?self0 = Inl TypeError"
    and "init (annotations_file scenario_annotations) (Inr example_store) example_tokenizer 0 5 True
     = Inl TypeError" by blast+
  moreover from init_raises_unless_index_empty
    [of "annotations_file []" "Inr example_store" example_tokenizer 0 5 True] e
  have "load_annotations (annotations_file []) = Inr (PDict [])" by blast
  ultimately show ?thesis using f e by simp
qed

lemma load_annotations_valid:
  assumes "subscript doc (PStr ''annotations'') = Inr (PList anns)"
    and "\<forall>a \<in> set anns. valid_annotation a"
  obtains es where "load_annotations (JSONText doc) = Inr (PDict es)" and "good_index es"
    and "map fst es = first_occurrences (ids_of anns)"
    and "\<And>k. is_int k \<Longrightarrow> dict_find es k =
           (if k \<in> set (ids_of anns) then Some (PList (group_of k anns)) else None)"
proof -
  have g: "good_index []" by (simp add: good_index_def)
  from load_loop_valid [OF g assms(2)] obtain es where l: "load_loop [] anns = Inr es"
    and "good_index es" and "map fst es = first_occurrences (ids_of anns)"
    and "\<And>k. is_int k \<Longrightarrow> dict_find es k =
           (if k \<in> set (ids_of anns) then Some (PList (group_of k anns)) else None)"
    by (auto simp: old_list_def)
  moreover from l assms(1) have "load_annotations (JSONText doc) = Inr (PDict es)"
    by (simp add: load_annotations_def)
  ultimately show thesis using that by blast
qed

text \<open>
  Claim C5. For a valid annotations file, \<^verbatim>\<open>_load_annotations\<close> returns an index whose keys
  are exactly the image ids of the file, and under each image id the list of the records
  with that id, in the order of the file, each reduced to its \<^verbatim>\<open>caption\<close> and \<^verbatim>\<open>foil\<close>
  fields (all other fields are dropped). For the ids 5, 5, 7 with captions a, b, c the
  index maps 5 to the records of a and b, in that order, and 7 to the record of c.
\<close>

theorem load_annotations_groups:
  assumes "subscript doc (PStr ''annotations'') = Inr (PList anns)"
    and "\<forall>a \<in> set anns. valid_annotation a"
  shows "\<exists>es. load_annotations (JSONText doc) = Inr (PDict es)
     \<and> set (map fst es) = set (ids_of anns)
     \<and> (\<forall>k. is_int k \<longrightarrow> dict_getitem es k =
           (if k \<in> set (ids_of anns) then Inr (PList (group_of k anns)) else Inl KeyError))"
proof -
  from load_annotations_valid [OF assms] obtain es where
    l: "load_annotations (JSONText doc) = Inr (PDict es)"
    and m: "map fst es = first_occurrences (ids_of anns)"
    and f: "\<And>k. is_int k \<Longrightarrow> dict_find es k =
           (if k \<in> set (ids_of anns) then Some (PList (group_of k anns)) else None)"
    by blast
  have "dict_getitem es k =
      (if k \<in> set (ids_of anns) then Inr (PList (group_of k anns)) else Inl KeyError)"
    if "is_int k" for k
    using f [OF that] is_int_hashable [OF that] by (simp add: dict_getitem_def)
  moreover have "set (map fst es) = set (ids_of anns)"
    unfolding m by simp
  ultimately show ?thesis using l by blast
qed

lemma grouping_valid: "\<forall>a \<in> set grouping_annotations. valid_annotation a"
  by (simp add: grouping_annotations_def valid_annotation_def image_id_of_def kept_fields_def
      annotation_json_def dict_getitem_def)

lemma grouping_ids: "ids_of grouping_annotations = [PInt 5, PInt 5, PInt 7]"
  by (simp add: grouping_annotations_def ids_of_def image_id_of_def
      annotation_json_def dict_getitem_def)

lemma grouping_groups:
  "group_of (PInt 5) grouping_annotations =
     [PDict [(PStr ''caption'', PStr ''a''), (PStr ''foil'', PBool False)],
      PDict [(PStr ''caption'', PStr ''b''), (PStr ''foil'', PBool True)]]"
  "group_of (PInt 7) grouping_annotations =
     [PDict [(PStr ''caption'', PStr ''c''), (PStr ''foil'', PBool False)]]"
  by (simp_all add: grouping_annotations_def group_of_def image_id_of_def kept_fields_def
      annotation_json_def dict_getitem_def)

theorem load_annotations_groups_witness:
  "subscript (PDict [(PStr ''annotations'', PList grouping_annotations)]) (PStr ''annotations'')
     = Inr (PList grouping_annotations)
   \<and> list_all valid_annotation grouping_annotations
   \<and> (\<exists>es. load_annotations (annotations_file grouping_annotations) = Inr (PDict es)
        \<and> set (map fst es) = {PInt 5, PInt 7}
        \<and> dict_getitem es (PInt 5) =
             Inr (PList [PDict [(PStr ''caption'', PStr ''a''), (PStr ''foil'', PBool False)],
                         PDict [(PStr ''caption'', PStr ''b''), (PStr ''foil'', PBool True)]])
        \<and> dict_getitem es (PInt 7) =
             Inr (PList [PDict [(PStr ''caption'', PStr ''c''), (PStr ''foil'', PBool False)]])
        \<and> dict_getitem es (PInt 6) = Inl KeyError)"
proof -
  have h: "subscript (PDict [(PStr ''annotations'', PList grouping_annotations)])
             (PStr ''annotations'') = Inr (PList grouping_annotations)"
    by (simp add: dict_getitem_def)
  from load_annotations_groups [OF h grouping_valid] obtain es where
    l: "load_annotations (JSONText (PDict [(PStr ''annotations'', PList grouping_annotations)]))
          = Inr (PDict es)"
    and s: "set (map fst es) = set (ids_of grouping_annotations)"
    and f: "\<forall>k. is_int k \<longrightarrow> dict_getitem es k =
           (if k \<in> set (ids_of grouping_annotations)
            then Inr (PList (group_of k grouping_annotations)) else Inl KeyError)"
    by blast
  from f have "dict_getitem es (PInt 5) = Inr (PList (group_of (PInt 5) grouping_annotations))"
    and "dict_getitem es (PInt 7) = Inr (PList (group_of (PInt 7) grouping_annotations))"
    and "dict_getitem es (PInt 6) = Inl KeyError"
    by (simp_all add: grouping_ids)
  with l s h grouping_valid show ?thesis
    by (auto simp: grouping_ids grouping_groups annotations_file_def list_all_iff)
qed

lemma scenario_dataset_built:
  "raising (init_fields (annotations_file scenario_annotations) (Inr example_store)
              example_tokenizer 0 5 True) hold_image_ids = Inr scenario_dataset"
proof -
  have "init_fields (annotations_file scenario_annotations) (Inr example_store)
              example_tokenizer 0 5 True
        = Inr (fields_of scenario_index example_store example_tokenizer 0 5)"
    by (simp add: init_fields_Inr load_scenario scenario_index_def)
  then show ?thesis
    by (simp add: hold_image_ids_def getattr_fields_of scenario_index_def scenario_dataset_def)
qed

lemma list_index_in_range:
  "0 \<le> i \<Longrightarrow> i < int (length xs) \<Longrightarrow> list_index xs i = Inr (xs ! nat i)"
  by (simp add: list_index_def Let_def)

lemma list_index_negative:
  "1 \<le> k \<Longrightarrow> k \<le> int (length xs) \<Longrightarrow> list_index xs (- k) = Inr (xs ! (length xs - nat k))"
proof -
  assume k: "1 \<le> k" "k \<le> int (length xs)"
  then have "nat (- k + int (length xs)) = length xs - nat k" by linarith
  with k show ?thesis by (simp add: list_index_def Let_def)
qed

lemma list_index_IndexError:
  "list_index xs i = Inl IndexError \<longleftrightarrow> i < - int (length xs) \<or> int (length xs) \<le> i"
  by (auto simp: list_index_def Let_def)


lemma reordered_valid: "\<forall>a \<in> set reordered_annotations. valid_annotation a"
  by (simp add: reordered_annotations_def valid_annotation_def image_id_of_def kept_fields_def
      annotation_json_def dict_getitem_def)


lemma scenario_valid: "\<forall>a \<in> set scenario_annotations. valid_annotation a"
  by (simp add: scenario_annotations_def valid_annotation_def image_id_of_def kept_fields_def
      annotation_json_def dict_getitem_def)

lemma scenario_ids: "ids_of scenario_annotations = [PInt 1, PInt 1]"
  by (simp add: scenario_annotations_def ids_of_def image_id_of_def
      annotation_json_def dict_getitem_def)

lemma annotations_file_subscript:
  "subscript (PDict [(PStr ''annotations'', PList anns)]) (PStr ''annotations'') = Inr (PList anns)"
  by (simp add: dict_getitem_def)

lemma getitem_list_entry:
  assumes "getattr self ''_entries'' = Inr (AVal (PDict es))" and "good_index es"
    and "getattr self ''_image_ids'' = Inr (AVal (PList (map fst es)))"
    and "getattr self ''_image_features_reader'' = Inr (AReader store)"
    and "fst ` set es \<subseteq> fst ` set store"
    and "0 \<le> i" and "i < int (length es)"
  shows "getitem ext self i = Inl TypeError"
proof -
  define k where "k = map fst es ! nat i"
  have ks: "k \<in> fst ` set es"
    using assms(6,7) nth_mem [of "nat i" "map fst es"] by (simp add: k_def)
  then have ik: "is_int k" using assms(2) by (auto simp: good_index_def)
  have 1: "image_id_at self i = Inr k"
    using assms(6,7) by (simp add: image_id_at_def assms(3) list_index_in_range k_def)
  from good_index_find [OF assms(2) ik] ks obtain v where v: "dict_find es k = Some v"
    by auto
  from good_index_lookup [OF assms(2) v] obtain l where l: "v = PList l" by (cases v) auto
  have 2: "dict_getitem es k = Inr (PList l)"
    using v l is_int_hashable [OF ik] by (simp add: dict_getitem_def)
  from ks assms(5) have "k \<in> fst ` set store" by blast
  then obtain a where 3: "map_of store k = Some a"
    by (metis domD dom_map_of_conv_image_fst)
  show ?thesis
    by (simp add: getitem_def 1 assms(1,4) 2 3)
qed

text \<open>
  Claim C1 does not hold of the code. On the annotations of the specification's
  end-to-end scenario (image id 1 with the captions ``a dog'' and ``a cat''), with image
  id 1 in the feature store, \<^verbatim>\<open>__init__\<close> raises \<^verbatim>\<open>TypeError\<close>, so there is no dataset to
  index. On the object that holds the index and its keys, index 0 is in range and
  resolves to image id 1, and \<^verbatim>\<open>__getitem__(0)\<close> raises \<^verbatim>\<open>TypeError\<close> instead of returning a
  sample: the entry of an image id is the list of its records, and the method subscripts
  it with \<^verbatim>\<open>"caption"\<close> (\<open>getitem_list_entry\<close> shows this for every such object and every
  index in range).
\<close>

theorem getitem_scenario_raises:
  "init (annotations_file scenario_annotations) (Inr example_store) example_tokenizer 0 5 True
     = Inl TypeError
   \<and> len scenario_dataset = Inr 1
   \<and> image_id_at scenario_dataset 0 = Inr (PInt 1)
   \<and> getitem ext scenario_dataset 0 = Inl TypeError"
proof -
  have "load_annotations (annotations_file scenario_annotations) = Inr scenario_index"
    using load_scenario by (simp add: scenario_index_def)
  then have "init (annotations_file scenario_annotations) (Inr example_store)
     example_tokenizer 0 5 True = Inl TypeError"
    by (simp add: init_cases scenario_index_def)
  moreover have "len scenario_dataset = Inr 1"
    by (simp add: len_def scenario_dataset_def getattr_fields_of scenario_index_def)
  moreover have "image_id_at scenario_dataset 0 = Inr (PInt 1)"
    by (simp add: image_id_at_def scenario_dataset_def list_index_def)
  moreover have "getitem ext scenario_dataset 0 = Inl TypeError"
    by (simp add: getitem_def image_id_at_def scenario_dataset_def getattr_fields_of
      scenario_index_def list_index_def dict_getitem_def example_store_def)
  ultimately show ?thesis by simp
qed

lemma vocab_loop_undefined:
  "getattr self ''tokenizer'' = Inl AttributeError \<Longrightarrow>
     vocab_loop self tokens (w # ws) = Inl AttributeError"
  by (simp add: self_tokenizer_vocab_def)

text \<open>
  Claim C2 does not hold of the code. On the object that \<^verbatim>\<open>__init__\<close> has built when it
  calls \<^verbatim>\<open>tokenize\<close>, the attributes \<^verbatim>\<open>tokenizer\<close> and \<^verbatim>\<open>dictionary\<close> do not exist:
  encoding the tokens of ``a dog'' raises \<^verbatim>\<open>AttributeError\<close> and produces no sequence, and so
  does the body of the loop on a record with that caption. (With both attributes present
  the loop computes the left-padded or truncated sequence of the claim:
  \<open>encode_tokens_defined\<close>.)
\<close>

theorem encode_scenario_raises:
  "getattr scenario_fields ''tokenizer'' = Inl AttributeError
   \<and> getattr scenario_fields ''dictionary'' = Inl AttributeError
   \<and> encode_tokens scenario_fields [PStr ''a'', PStr ''dog''] = Inl AttributeError
   \<and> tokenize_entry scenario_fields 0
        (PDict [(PStr ''caption'', PStr ''a dog''), (PStr ''foil'', PBool False)])
       = Inl AttributeError"
proof -
  have t: "getattr scenario_fields ''tokenizer'' = Inl AttributeError"
    and d: "getattr scenario_fields ''dictionary'' = Inl AttributeError"
    by (simp_all add: scenario_fields_def getattr_fields_of)
  have e: "encode_tokens scenario_fields toks = Inl AttributeError" for toks
    by (simp add: encode_tokens_def vocab_loop_undefined [OF t] del: vocab_loop.simps)
  have "getattr scenario_fields ''_tokenizer''
          = Inr (ATokenizer (fst example_tokenizer) (snd example_tokenizer))"
    by (simp add: scenario_fields_def getattr_fields_of)
  then have "tokenize_entry scenario_fields 0
        (PDict [(PStr ''caption'', PStr ''a dog''), (PStr ''foil'', PBool False)])
       = Inl AttributeError"
    by (simp add: tokenize_entry_def e dict_getitem_def)
  with t d e show ?thesis by simp
qed

text \<open>
  Claim C6 does not hold of the code. The lookup of a token reads \<^verbatim>\<open>self.tokenizer.vocab\<close>,
  and the object has no attribute \<^verbatim>\<open>tokenizer\<close>: it raises \<^verbatim>\<open>AttributeError\<close> for a token
  of the vocabulary (``dog'') and for one that is not in it (``zebra''). (With the
  attribute present a known token maps to its id and any other to the id of
  \<^verbatim>\<open>[UNK]\<close>: \<open>vocab_loop_defined\<close>.)
\<close>

theorem vocab_lookup_scenario_raises:
  "vocab_loop scenario_fields [] [PStr ''dog''] = Inl AttributeError
   \<and> vocab_loop scenario_fields [] [PStr ''zebra''] = Inl AttributeError"
proof -
  have t: "getattr scenario_fields ''tokenizer'' = Inl AttributeError"
    by (simp add: scenario_fields_def getattr_fields_of)
  show ?thesis by (simp only: vocab_loop_undefined [OF t])
qed

lemma vocab_loop_defined:
  assumes "getattr self ''tokenizer'' = Inr (ATokenizer f vocab)"
    and "dict_find vocab (PStr ''[UNK]'') = Some unk"
    and "\<forall>w \<in> set ws. hashable w"
  shows "vocab_loop self tokens ws = Inr (tokens @ map (vocab_id vocab unk) ws)"
  using assms(3)
proof (induction ws arbitrary: tokens)
  case Nil
  show ?case by simp
next
  case (Cons w ws)
  then have h: "hashable w" and r: "\<forall>w \<in> set ws. hashable w" by simp_all
  have v: "self_tokenizer_vocab self = Inr (PDict vocab)"
    by (simp add: self_tokenizer_vocab_def assms(1))
  have "vocab_loop self tokens (w # ws) = vocab_loop self (tokens @ [vocab_id vocab unk w]) ws"
    using h assms(2)
    by (cases "dict_find vocab w")
       (simp_all add: v dict_contains_def dict_getitem_def vocab_id_def)
  with Cons.IH [OF r] show ?case by simp
qed

lemma encode_tokens_defined:
  assumes "getattr self ''tokenizer'' = Inr (ATokenizer f vocab)"
    and "dict_find vocab (PStr ''[UNK]'') = Some unk"
    and "getattr self ''dictionary'' = Inr (AObject as)"
    and "map_of as ''padding_idx'' = Some p"
    and "getattr self ''_max_caption_length'' = Inr (AVal (PInt m))" and "0 \<le> m"
    and "\<forall>w \<in> set sentence_tokens. hashable w"
  shows "encode_tokens self sentence_tokens =
     Inr (let ids = map (vocab_id vocab unk) ([PStr ''[CLS]''] @ sentence_tokens @ [PStr ''[SEP]''])
          in if m \<le> int (length ids) then take (nat m) ids
             else replicate (nat m - length ids) p @ ids)"
proof -
  let ?ws = "[PStr ''[CLS]''] @ sentence_tokens @ [PStr ''[SEP]'']"
  have "\<forall>w \<in> set ?ws. hashable w" using assms(7) by simp
  from vocab_loop_defined [OF assms(1,2) this, of "[]"]
  have v: "vocab_loop self [] ?ws = Inr (map (vocab_id vocab unk) ?ws)" by simp
  have n: "nat (m - int k) = nat m - k" for k :: nat
    using assms(6) by linarith
  show ?thesis
    unfolding encode_tokens_def v
    using assms(6)
    by (simp add: assms(3,4,5) pad_front_def slice_to_def Let_def n min_def
             del: vocab_loop.simps append.simps map_append)
qed

text \<open>
  The datasets that \<^verbatim>\<open>__init__\<close> returns: the index is empty, and so is the list of image
  ids; the length is 0 and \<^verbatim>\<open>__getitem__\<close> raises \<^verbatim>\<open>IndexError\<close> at every index.
\<close>

lemma init_Inr_iff:
  "init jf h5 tk pad m mem = Inr self \<longleftrightarrow>
     load_annotations jf = Inr (PDict [])
     \<and> (\<exists>store. h5 = Inr store
           \<and> self = setattr (fields_of (PDict []) store tk pad m) ''_image_ids'' (AVal (PList [])))"
  unfolding init_cases by (auto split: sum.splits)

lemma init_len:
  assumes "init jf h5 tk pad m mem = Inr self"
  shows "len self = Inr 0"
  using assms unfolding init_Inr_iff by (auto simp: len_def getattr_fields_of)



lemma init_valid_records:
  assumes "subscript doc (PStr ''annotations'') = Inr (PList (a # anns))"
    and "\<forall>x \<in> set (a # anns). valid_annotation x"
  shows "init (JSONText doc) (Inr store) tk pad m mem = Inl TypeError"
proof -
  from load_annotations_valid [OF assms] obtain es where
    l: "load_annotations (JSONText doc) = Inr (PDict es)"
    and k: "map fst es = first_occurrences (ids_of (a # anns))"
    by blast
  from k have "es \<noteq> []" by (auto simp: ids_of_def)
  with l show ?thesis by (simp add: init_cases)
qed

lemma init_empty:
  "init (annotations_file []) (Inr example_store) example_tokenizer 0 5 True = Inr empty_dataset"
  by (simp add: init_cases load_empty empty_dataset_def)

lemma init_scenario:
  "init (annotations_file scenario_annotations) (Inr example_store) example_tokenizer 0 5 True
     = Inl TypeError"
  by (simp add: init_cases load_scenario)



text \<open>
  Claim C3 does not hold of the code. On the annotations file of the claim, with the image
  ids 1, 1 (and image id 1 in the feature store), \<^verbatim>\<open>__init__\<close> raises \<^verbatim>\<open>TypeError\<close>: there is
  no dataset whose length could be 1. The only datasets \<^verbatim>\<open>__init__\<close> returns are those of an
  empty index, and their length is 0 (\<open>init_len\<close>).
\<close>

theorem len_unreachable_on_repeated_ids:
  "ids_of scenario_annotations = [PInt 1, PInt 1]
   \<and> init (annotations_file scenario_annotations) (Inr example_store) example_tokenizer 0 5 True
       = Inl TypeError
   \<and> init (annotations_file []) (Inr example_store) example_tokenizer 0 5 True = Inr empty_dataset
   \<and> len empty_dataset = Inr 0"
  using scenario_ids init_scenario init_empty init_len [OF init_empty] by simp




lemma lacks_annotations_subscript:
  "lacks_annotations doc \<Longrightarrow>
     subscript doc (PStr ''annotations'') = Inl (if is_dict doc then KeyError else TypeError)"
  by (cases doc) (simp_all add: dict_getitem_def)

lemma init_load_error: "load_annotations jf = Inl e \<Longrightarrow> init jf h5 tk pad m mem = Inl e"
  by (simp add: init_cases)

text \<open>
  Claim C7, as amended. \<^verbatim>\<open>_load_annotations\<close> raises whatever \<^verbatim>\<open>json.load(open(path))\<close> raises,
  and raises when the parsed document lacks the top-level key \<^verbatim>\<open>"annotations"\<close>:
  \<^verbatim>\<open>KeyError\<close> for an object without the key, \<^verbatim>\<open>TypeError\<close> for a document that is not an
  object. In each case \<^verbatim>\<open>__init__\<close> raises the same exception, whatever its other arguments
  are: loading the annotations is its first statement. A file that is not valid JSON makes
  the library call raise, unless it deviates from JSON only by the literals \<^verbatim>\<open>NaN\<close>,
  \<^verbatim>\<open>Infinity\<close> or \<^verbatim>\<open>-Infinity\<close>.
\<close>

theorem load_annotations_failure:
  "(json_load jf = Inl e \<longrightarrow>
      load_annotations jf = Inl e \<and> init jf h5 tk pad m mem = Inl e)
   \<and> (json_load jf = Inr doc \<and> lacks_annotations doc \<longrightarrow>
        load_annotations jf = Inl (if is_dict doc then KeyError else TypeError)
        \<and> init jf h5 tk pad m mem = Inl (if is_dict doc then KeyError else TypeError))
   \<and> (\<not> valid_json jf \<longrightarrow>
        json_load jf \<in> {Inl OSError, Inl UnicodeDecodeError, Inl JSONDecodeError}
        \<or> (\<exists>d. jf = NonStandardJSON d))"
proof (intro conjI impI)
  assume "json_load jf = Inl e"
  then show "load_annotations jf = Inl e" by (simp add: load_annotations_def)
  then show "init jf h5 tk pad m mem = Inl e" by (rule init_load_error)
next
  assume "json_load jf = Inr doc \<and> lacks_annotations doc"
  then show l: "load_annotations jf = Inl (if is_dict doc then KeyError else TypeError)"
    using lacks_annotations_subscript [of doc] by (simp add: load_annotations_def)
  then show "init jf h5 tk pad m mem = Inl (if is_dict doc then KeyError else TypeError)"
    by (rule init_load_error)
next
  assume "\<not> valid_json jf"
  then show "json_load jf \<in> {Inl OSError, Inl UnicodeDecodeError, Inl JSONDecodeError}
        \<or> (\<exists>d. jf = NonStandardJSON d)"
    by (cases jf) simp_all
qed

theorem load_annotations_failure_witness:
  "\<not> valid_json NotJSON \<and> json_load NotJSON = Inl JSONDecodeError
   \<and> load_annotations NotJSON = Inl JSONDecodeError
   \<and> init NotJSON (Inr example_store) example_tokenizer 0 5 True = Inl JSONDecodeError
   \<and> \<not> valid_json InvalidUTF8 \<and> json_load InvalidUTF8 = Inl UnicodeDecodeError
   \<and> init InvalidUTF8 (Inr example_store) example_tokenizer 0 5 True = Inl UnicodeDecodeError
   \<and> lacks_annotations (PDict [(PStr ''images'', PList [])])
   \<and> init (JSONText (PDict [(PStr ''images'', PList [])])) (Inr example_store)
         example_tokenizer 0 5 True = Inl KeyError
   \<and> lacks_annotations (PList [])
   \<and> init (JSONText (PList [])) (Inr example_store) example_tokenizer 0 5 True = Inl TypeError"
proof -
  note t = load_annotations_failure [where ?h5.0 = "Inr example_store" and tk = example_tokenizer
      and pad = 0 and m = 5 and mem = True]
  have 1: "json_load NotJSON = Inl JSONDecodeError" and 2: "json_load InvalidUTF8 = Inl UnicodeDecodeError"
    by simp_all
  have 3: "json_load (JSONText (PDict [(PStr ''images'', PList [])]))
             = Inr (PDict [(PStr ''images'', PList [])])
           \<and> lacks_annotations (PDict [(PStr ''images'', PList [])])"
    and 4: "json_load (JSONText (PList [])) = Inr (PList []) \<and> lacks_annotations (PList [])"
    by simp_all
  from t [of NotJSON JSONDecodeError] 1
  have a: "load_annotations NotJSON = Inl JSONDecodeError
      \<and> init NotJSON (Inr example_store) example_tokenizer 0 5 True = Inl JSONDecodeError"
    by blast
  from t [of InvalidUTF8 UnicodeDecodeError] 2
  have b: "init InvalidUTF8 (Inr example_store) example_tokenizer 0 5 True = Inl UnicodeDecodeError"
    by blast
  from t [of "JSONText (PDict [(PStr ''images'', PList [])])" _ "PDict [(PStr ''images'', PList [])]"] 3
  have c: "init (JSONText (PDict [(PStr ''images'', PList [])])) (Inr example_store)
         example_tokenizer 0 5 True = Inl KeyError"
    by simp
  from t [of "JSONText (PList [])" _ "PList []"] 4
  have d: "init (JSONText (PList [])) (Inr example_store) example_tokenizer 0 5 True = Inl TypeError"
    by simp
  from a b c d show ?thesis by simp
qed

text \<open>
  Claim C7, as stated, fails on the file \<^verbatim>\<open>{"annotations": [], "score": NaN}\<close>: it is not
  valid JSON, \<^verbatim>\<open>_load_annotations\<close> returns the empty index for it, and \<^verbatim>\<open>__init__\<close> returns a
  dataset.
\<close>

theorem nan_file_accepted_counterexample:
  "\<not> valid_json nan_file
   \<and> load_annotations nan_file = Inr (PDict [])
   \<and> init nan_file (Inr example_store) example_tokenizer 0 5 True = Inr empty_dataset"
proof -
  have l: "load_annotations nan_file = Inr (PDict [])"
    by (simp add: nan_file_def load_annotations_def dict_getitem_def)
  then show ?thesis
    by (simp add: init_cases empty_dataset_def) (simp add: nan_file_def)
qed

end
